theory Spec2Isabelle
  imports Complex_Main "HOL-Library.Word"
begin

unbundle bit_operations_syntax

section \<open>Data model of \<open>src/ucp/proto/proto_priority.{h,c}\<close>\<close>

text \<open>
  Lane indices are \<open>ucp_lane_index_t\<close> (an unsigned byte); lane maps and memory-domain
  maps are bitmasks. Their typedefs are in headers that \<open>proto_priority.h\<close> includes and
  that are not modelled here: \<open>UCS_BIT(i)\<close> is \<open>1ul << i\<close>, so both maps are taken as
  64-bit words. A \<open>ucp_proto_perf_node_t *\<close> is the address of an attribution node,
  \<open>None\<close> being the null pointer. Of \<open>ucs_status_t\<close>, the three codes the two functions
  name are constructors of their own; \<open>UCS_ERR_OTHER c\<close> is any other code \<open>c\<close>.
\<close>

type_synonym ucp_lane_index_t = "8 word"
type_synonym ucp_lane_map_t = "64 word"
type_synonym ucp_md_map_t = "64 word"
type_synonym node = nat

datatype ucs_status_t =
    UCS_OK
  | UCS_ERR_NO_ELEM
  | UCS_ERR_UNSUPPORTED
  | UCS_ERR_OTHER int

text \<open>
  A C \<open>double\<close>, as far as the comparison \<open>>\<close> of the selector can tell values apart:
  not-a-number, the two infinities, and the finite values (both zeros are the one value
  \<open>Fin 0\<close>, which is how \<open>>\<close> and \<open>==\<close> see them).
\<close>

datatype double = NaN | MInf | Fin real | PInf

fun double_lt :: "double \<Rightarrow> double \<Rightarrow> bool" where
  "double_lt NaN b = False"
| "double_lt a NaN = False"
| "double_lt MInf MInf = False"
| "double_lt MInf b = True"
| "double_lt (Fin x) (Fin y) = (x < y)"
| "double_lt (Fin x) PInf = True"
| "double_lt (Fin x) MInf = False"
| "double_lt PInf b = False"

definition double_gt :: "double \<Rightarrow> double \<Rightarrow> bool" where
  "double_gt a b = double_lt b a"

definition double_eq :: "double \<Rightarrow> double \<Rightarrow> bool" where
  "double_eq a b = (a \<noteq> NaN \<and> a = b)"

definition double_le :: "double \<Rightarrow> double \<Rightarrow> bool" where
  "double_le a b = (double_lt a b \<or> double_eq a b)"

definition INFINITY :: double where
  "INFINITY = PInf"

definition UCS_BIT :: "nat \<Rightarrow> 64 word" where
  "UCS_BIT i = push_bit i 1"

text \<open>
  \<open>ucp_proto_common_tl_perf_t\<close>: the selector reads the latency only.
\<close>

record ucp_proto_common_tl_perf_t =
  latency :: double

text \<open>
  The init parameters, with the fields the two functions read. \<open>super\<close> members are
  record extensions. The two output pointers \<open>priv\<close> and \<open>priv_size\<close> of the innermost
  structure are the fields of that name of the state below. The private blob
  \<open>ucp_proto_priority_priv_t\<close> has its three own fields; its first member \<open>super\<close>, of a
  type declared elsewhere, is read or stored to by neither function and is left out.
\<close>

record ucp_proto_init_params_t =
  proto_name :: string
  num_priority_lanes :: nat

record ucp_proto_common_init_params_t = ucp_proto_init_params_t +
  exclude_map :: ucp_lane_map_t

record ucp_proto_priority_init_params_t = ucp_proto_common_init_params_t +
  tl_cap_flags :: "64 word"
  lane_type :: nat

record ucp_proto_priority_priv_t =
  reg_md_map :: ucp_md_map_t
  lane_map :: ucp_lane_map_t
  num_lanes :: ucp_lane_index_t

text \<open>\<open>&params->super\<close>: the common part of the priority parameters.\<close>

definition params_super ::
  "ucp_proto_priority_init_params_t \<Rightarrow> ucp_proto_common_init_params_t" where
  "params_super params = ucp_proto_common_init_params_t.truncate params"

section \<open>State and collaborators\<close>

text \<open>
  What a call does to the outside is the sequence of its calls to the collaborators and
  its stores through the two output pointers. The state holds that sequence and the two
  pointed-to objects; \<open>priv_size = None\<close> is a size field nobody has stored to yet.
  \<open>Acquire n\<close> is one reference taken on node \<open>n\<close>, \<open>Release n\<close> one reference given
  back.
\<close>

datatype event =
    is_CheckErrHandling: CheckErrHandling
  | is_FindLanes: FindLanes
  | is_GetLanePerf: GetLanePerf ucp_lane_index_t
  | is_Acquire: Acquire node
  | is_Release: Release node
  | is_RegMdMap: RegMdMap ucp_lane_map_t
  | is_InitCaps: InitCaps "node option" ucp_md_map_t

record pstate =
  trace :: "event list"
  priv :: ucp_proto_priority_priv_t
  priv_size :: "nat option"

text \<open>
  The collaborators are defined in other files of the library (\<open>proto_common.c\<close>,
  \<open>proto_init.c\<close>, \<open>proto_debug.c\<close>); their behaviour is a parameter. \<open>UCP_PROTO_MAX_LANES\<close> and \<open>sizeof_priv\<close>
  (\<open>sizeof(ucp_proto_priority_priv_t)\<close>) are constants whose values are not in these
  files either.
\<close>

record ucp_env =
  find_lanes :: "ucp_proto_common_init_params_t \<Rightarrow> nat \<Rightarrow> 64 word \<Rightarrow> nat
                   \<Rightarrow> ucp_lane_map_t \<Rightarrow> ucp_lane_index_t list"
  get_lane_perf :: "ucp_proto_common_init_params_t \<Rightarrow> ucp_lane_index_t
                   \<Rightarrow> ucs_status_t \<times> ucp_proto_common_tl_perf_t \<times> node"
  common_reg_md_map :: "ucp_proto_common_init_params_t \<Rightarrow> ucp_lane_map_t \<Rightarrow> ucp_md_map_t"
  init_caps :: "ucp_proto_common_init_params_t \<Rightarrow> ucp_proto_common_tl_perf_t
                   \<Rightarrow> node option \<Rightarrow> ucp_md_map_t \<Rightarrow> ucs_status_t"
  check_err_handling :: "ucp_proto_common_init_params_t \<Rightarrow> bool"
  UCP_PROTO_MAX_LANES :: nat
  sizeof_priv :: nat

definition emit :: "event list \<Rightarrow> pstate \<Rightarrow> pstate" where
  "emit es s = s\<lparr>trace := trace s @ es\<rparr>"

text \<open>
  Modelled from the spec: the Lane Catalog \<open>ucp_proto_common_find_lanes\<close>, which fills
  the caller's array \<open>lanes\<close> and returns the number of entries; the list returned here
  is the filled part of the array, its length the count.
\<close>

definition ucp_proto_common_find_lanes ::
  "ucp_env \<Rightarrow> ucp_proto_common_init_params_t \<Rightarrow> nat \<Rightarrow> 64 word \<Rightarrow> nat \<Rightarrow> ucp_lane_map_t
     \<Rightarrow> pstate \<Rightarrow> ucp_lane_index_t list \<times> pstate" where
  "ucp_proto_common_find_lanes env params ltype flags max_lanes exclude s =
     (find_lanes env params ltype flags max_lanes exclude, emit [FindLanes] s)"

text \<open>
  Modelled from the spec: the Performance Model Provider \<open>ucp_proto_common_get_lane_perf\<close>,
  which on success hands the caller a performance tuple and an attribution node together
  with one reference on that node, and on failure hands out nothing.
\<close>

definition ucp_proto_common_get_lane_perf ::
  "ucp_env \<Rightarrow> ucp_proto_common_init_params_t \<Rightarrow> ucp_lane_index_t \<Rightarrow> pstate
     \<Rightarrow> ucs_status_t \<times> ucp_proto_common_tl_perf_t \<times> node option \<times> pstate" where
  "ucp_proto_common_get_lane_perf env params lane s =
     (case get_lane_perf env params lane of
        (status, perf, n) \<Rightarrow>
          if status = UCS_OK
          then (status, perf, Some n, emit [GetLanePerf lane, Acquire n] s)
          else (status, perf, None, emit [GetLanePerf lane] s))"

text \<open>
  Modelled from the spec: the Registration Map Builder \<open>ucp_proto_common_reg_md_map\<close>, a
  pure function of the lane map and the configuration.
\<close>

definition ucp_proto_common_reg_md_map ::
  "ucp_env \<Rightarrow> ucp_proto_common_init_params_t \<Rightarrow> ucp_lane_map_t \<Rightarrow> pstate
     \<Rightarrow> ucp_md_map_t \<times> pstate" where
  "ucp_proto_common_reg_md_map env params lmap s =
     (common_reg_md_map env params lmap, emit [RegMdMap lmap] s)"

text \<open>
  Modelled from the spec: reference counting on attribution nodes,
  \<open>ucp_proto_perf_node_ref\<close> and \<open>ucp_proto_perf_node_deref\<close>; a null pointer is left
  alone.
\<close>

definition ucp_proto_perf_node_ref :: "node option \<Rightarrow> pstate \<Rightarrow> pstate" where
  "ucp_proto_perf_node_ref p s = (case p of None \<Rightarrow> s | Some n \<Rightarrow> emit [Acquire n] s)"

definition ucp_proto_perf_node_deref :: "node option \<Rightarrow> pstate \<Rightarrow> pstate" where
  "ucp_proto_perf_node_deref p s = (case p of None \<Rightarrow> s | Some n \<Rightarrow> emit [Release n] s)"

text \<open>
  Modelled from the spec: the Capability Aggregator \<open>ucp_proto_common_init_caps\<close>, which
  returns a result code.
\<close>

definition ucp_proto_common_init_caps ::
  "ucp_env \<Rightarrow> ucp_proto_common_init_params_t \<Rightarrow> ucp_proto_common_tl_perf_t \<Rightarrow> node option
     \<Rightarrow> ucp_md_map_t \<Rightarrow> pstate \<Rightarrow> ucs_status_t \<times> pstate" where
  "ucp_proto_common_init_caps env params perf p md s =
     (init_caps env params perf p md,
      emit [InitCaps p md] s)"

text \<open>
  Modelled from the spec: the external error-handling predicate
  \<open>ucp_proto_common_init_check_err_handling\<close>.
\<close>

definition ucp_proto_common_init_check_err_handling ::
  "ucp_env \<Rightarrow> ucp_proto_common_init_params_t \<Rightarrow> pstate \<Rightarrow> bool \<times> pstate" where
  "ucp_proto_common_init_check_err_handling env params s =
     (check_err_handling env params, emit [CheckErrHandling] s)"

section \<open>\<open>ucp_proto_priority_init_priv\<close>\<close>

text \<open>
  The local variables the scan loop updates: the two arrays indexed by lane (an entry
  that was never stored to is \<open>None\<close>), the running minimum and its index in \<open>lanes\<close>.
\<close>

record scan_vars =
  lanes_perf :: "ucp_lane_index_t \<Rightarrow> ucp_proto_common_tl_perf_t option"
  lanes_perf_nodes :: "ucp_lane_index_t \<Rightarrow> node option"
  min_latency :: double
  min_lat_lane_index :: nat

text \<open>
  The first loop, \<open>for (i = 0; i < num_lanes; ++i)\<close>, from index \<open>i\<close> on; the
  \<open>return status\<close> inside the loop is the first branch.
\<close>

function scan_lanes ::
  "ucp_env \<Rightarrow> ucp_proto_common_init_params_t \<Rightarrow> ucp_lane_index_t list \<Rightarrow> nat \<Rightarrow> scan_vars
     \<Rightarrow> pstate \<Rightarrow> ucs_status_t \<times> scan_vars \<times> pstate" where
  "scan_lanes env params lanes i v s =
     (if i < length lanes then
        (let lane = lanes ! i in
         case ucp_proto_common_get_lane_perf env params lane s of
           (status, lane_perf, n, s1) \<Rightarrow>
             if status \<noteq> UCS_OK then (status, v, s1)
             else
               (let v1 = v\<lparr>lanes_perf := (lanes_perf v)(lane := Some lane_perf),
                           lanes_perf_nodes := (lanes_perf_nodes v)(lane := n)\<rparr>;
                    v2 = (if double_gt (min_latency v1) (latency lane_perf)
                          then v1\<lparr>min_latency := latency lane_perf,
                                  min_lat_lane_index := i\<rparr>
                          else v1)
                in scan_lanes env params lanes (i + 1) v2 s1))
      else (UCS_OK, v, s))"
  by pat_completeness auto
termination
  by (relation "measure (\<lambda>(env, params, lanes, i, v, s). length lanes - i)") auto

declare scan_lanes.simps [simp del]

definition scan_init :: scan_vars where
  "scan_init = \<lparr>lanes_perf = (\<lambda>l. None), lanes_perf_nodes = (\<lambda>l. None),
                min_latency = INFINITY, min_lat_lane_index = 0\<rparr>"

text \<open>The second loop, which gives back the reference of every candidate.\<close>

definition deref_lanes ::
  "ucp_lane_index_t list \<Rightarrow> (ucp_lane_index_t \<Rightarrow> node option) \<Rightarrow> pstate \<Rightarrow> pstate" where
  "deref_lanes lanes nodes s =
     fold (\<lambda>i. ucp_proto_perf_node_deref (nodes (lanes ! i))) [0..<length lanes] s"

text \<open>
  The function itself. \<open>perf\<close> stands for the content of the local variable of that
  name, which the function passes to the Aggregator without ever storing to it. The
  function has no store through \<open>priv\<close>. The \<open>ucs_trace\<close> line of the empty-catalog
  branch writes to the log only and is left out.
\<close>

definition ucp_proto_priority_init_priv ::
  "ucp_env \<Rightarrow> ucp_proto_priority_init_params_t \<Rightarrow> ucp_proto_common_tl_perf_t \<Rightarrow> pstate
     \<Rightarrow> ucs_status_t \<times> pstate" where
  "ucp_proto_priority_init_priv env params perf s =
     (let super = params_super params in
      case ucp_proto_common_find_lanes env super (lane_type params) (tl_cap_flags params)
             (UCP_PROTO_MAX_LANES env) (exclude_map params) s of
        (lanes, s1) \<Rightarrow>
          if length lanes = 0 then (UCS_ERR_NO_ELEM, s1)
          else
            (case scan_lanes env super lanes 0 scan_init s1 of
               (status, v, s2) \<Rightarrow>
                 if status \<noteq> UCS_OK then (status, s2)
                 else
                   (let lmap = UCS_BIT (unat (lanes ! min_lat_lane_index v)) in
                    case ucp_proto_common_reg_md_map env super lmap s2 of
                      (md, s3) \<Rightarrow>
                        (let perf_node = lanes_perf_nodes v (lanes ! min_lat_lane_index v);
                             s4 = ucp_proto_perf_node_ref perf_node s3
                         in case ucp_proto_common_init_caps env super perf perf_node md s4 of
                              (status', s5) \<Rightarrow>
                                (let s6 = deref_lanes lanes (lanes_perf_nodes v) s5;
                                     s7 = ucp_proto_perf_node_deref perf_node s6
                                 in (status', s7))))))"

section \<open>\<open>ucp_proto_priority_init\<close>\<close>

definition ucp_proto_priority_init ::
  "ucp_env \<Rightarrow> ucp_proto_priority_init_params_t \<Rightarrow> ucp_proto_common_tl_perf_t \<Rightarrow> pstate
     \<Rightarrow> ucs_status_t \<times> pstate" where
  "ucp_proto_priority_init env params perf s =
     (case ucp_proto_common_init_check_err_handling env (params_super params) s of
        (ok, s1) \<Rightarrow>
          if \<not> ok then (UCS_ERR_UNSUPPORTED, s1)
          else if num_priority_lanes params = 0 then (UCS_OK, s1)
          else
            (case ucp_proto_priority_init_priv env params perf s1 of
               (status, s2) \<Rightarrow>
                 if status \<noteq> UCS_OK then (status, s2)
                 else (UCS_OK, s2\<lparr>priv_size := Some (sizeof_priv env)\<rparr>)))"

section \<open>\<open>ucp_proto_priority_query\<close> and the macro \<open>UCP_PRIORITY_PROTO_DECL\<close>\<close>

text \<open>
  \<open>ucp_proto_priority_query\<close> has an empty body: it leaves the attribute object it is
  given as it is.
\<close>

definition ucp_proto_priority_query :: "'qp \<Rightarrow> 'qa \<Rightarrow> 'qa" where
  "ucp_proto_priority_query params attr = attr"

text \<open>
  The macro \<open>UCP_PRIORITY_PROTO_DECL(_proto)\<close> has no definition here. Its last item
  reads \<open>ucp_proto_t _proto ## __priority\<close> followed at once by a brace list
  \<open>{ .name = _proto.name, ..., .reset = _proto.reset }\<close>, with no \<open>=\<close> between the
  declarator and the list. That is not a declaration of C, so an expansion of the macro
  defines no descriptor whose fields could be compared with the base's; the macro is
  expanded nowhere in these files. The brace list itself names what was meant: \<open>name\<close>, \<open>desc\<close>,
  \<open>progress\<close>, \<open>abort\<close> and \<open>reset\<close> taken from \<open>_proto\<close>, \<open>flags\<close> or-ed with
  \<open>UCP_PROTO_FLAG_PRIORITY\<close>, \<open>init\<close> and \<open>query\<close> the two generated wrappers. The
  generated \<open>init\<close> wrapper also hands its \<open>ucp_proto_init_params_t\<close> pointer to
  \<open>ucp_proto_priority_init\<close>, which takes a pointer to the larger
  \<open>ucp_proto_priority_init_params_t\<close>.
\<close>

section \<open>Observations on a run\<close>

text \<open>
  The events a call added, and what they say: how many references were taken and given
  back, which lanes the Provider was asked about, which lane maps went to the
  Registration Map Builder and which nodes to the Aggregator.
\<close>

definition events_since :: "pstate \<Rightarrow> pstate \<Rightarrow> event list" where
  "events_since s s' = drop (length (trace s)) (trace s')"

definition acquisitions :: "event list \<Rightarrow> nat" where
  "acquisitions es = length (filter is_Acquire es)"

definition releases :: "event list \<Rightarrow> nat" where
  "releases es = length (filter is_Release es)"

fun lane_maps_of :: "event list \<Rightarrow> ucp_lane_map_t list" where
  "lane_maps_of [] = []"
| "lane_maps_of (RegMdMap m # es) = m # lane_maps_of es"
| "lane_maps_of (e # es) = lane_maps_of es"

fun caps_nodes_of :: "event list \<Rightarrow> node option list" where
  "caps_nodes_of [] = []"
| "caps_nodes_of (InitCaps p md # es) = p # caps_nodes_of es"
| "caps_nodes_of (e # es) = caps_nodes_of es"

text \<open>What the Provider answers for a lane: result code, latency, node.\<close>

definition lane_status :: "ucp_env \<Rightarrow> ucp_proto_common_init_params_t \<Rightarrow> ucp_lane_index_t
  \<Rightarrow> ucs_status_t" where
  "lane_status env params l = fst (get_lane_perf env params l)"

definition lane_latency :: "ucp_env \<Rightarrow> ucp_proto_common_init_params_t \<Rightarrow> ucp_lane_index_t
  \<Rightarrow> double" where
  "lane_latency env params l = latency (fst (snd (get_lane_perf env params l)))"

definition lane_node :: "ucp_env \<Rightarrow> ucp_proto_common_init_params_t \<Rightarrow> ucp_lane_index_t
  \<Rightarrow> node" where
  "lane_node env params l = snd (snd (get_lane_perf env params l))"

text \<open>The candidate list the Lane Catalog returns for the parameters.\<close>

definition candidates :: "ucp_env \<Rightarrow> ucp_proto_priority_init_params_t
  \<Rightarrow> ucp_lane_index_t list" where
  "candidates env params =
     find_lanes env (params_super params) (lane_type params)
       (tl_cap_flags params) (UCP_PROTO_MAX_LANES env) (exclude_map params)"

section \<open>Auxiliary definitions for the proofs\<close>

text \<open>
  The events of a scan in which every Provider query succeeds, one step of the running
  minimum, the loop invariant of the running minimum, the index the scan ends with, and
  the events of a whole run that reaches the end of the function.
\<close>

definition scan_events :: "ucp_env \<Rightarrow> ucp_proto_common_init_params_t \<Rightarrow> ucp_lane_index_t list \<Rightarrow> event list" where
  "scan_events env p ls = concat (map (\<lambda>l. [GetLanePerf l, Acquire (lane_node env p l)]) ls)"

definition min_step :: "(nat \<Rightarrow> double) \<Rightarrow> nat \<Rightarrow> double \<times> nat \<Rightarrow> double \<times> nat" where
  "min_step L i mk = (if double_gt (fst mk) (L i) then (L i, i) else mk)"

definition argmin_inv :: "(nat \<Rightarrow> double) \<Rightarrow> nat \<Rightarrow> double \<times> nat \<Rightarrow> bool" where
  "argmin_inv L i mk \<longleftrightarrow>
     (\<forall>j<i. \<not> double_lt (L j) (fst mk)) \<and>
     ((fst mk = PInf \<and> snd mk = 0) \<or>
      (snd mk < i \<and> L (snd mk) = fst mk \<and> double_lt (fst mk) PInf \<and>
       (\<forall>j. j < snd mk \<longrightarrow> \<not> double_le (L j) (fst mk))))"

definition selected_index ::
  "ucp_env \<Rightarrow> ucp_proto_common_init_params_t \<Rightarrow> ucp_lane_index_t list \<Rightarrow> nat" where
  "selected_index env p lanes =
     snd (fold (min_step (\<lambda>j. lane_latency env p (lanes ! j))) [0..<length lanes] (INFINITY, 0))"

definition ok_events ::
  "ucp_env \<Rightarrow> ucp_proto_common_init_params_t \<Rightarrow> ucp_lane_index_t list \<Rightarrow> nat \<Rightarrow> event list" where
  "ok_events env p lanes k =
     FindLanes # scan_events env p lanes @
     [RegMdMap (UCS_BIT (unat (lanes ! k))),
      Acquire (lane_node env p (lanes ! k)),
      InitCaps (Some (lane_node env p (lanes ! k)))
        (common_reg_md_map env p (UCS_BIT (unat (lanes ! k))))] @
     map (\<lambda>l. Release (lane_node env p l)) lanes @
     [Release (lane_node env p (lanes ! k))]"

section \<open>Example inputs\<close>

text \<open>
  A Provider given by a table (result code and latency of lane 0, 1, ...; the node of
  lane \<open>l\<close> is \<open>10 + l\<close>), a configuration around it, parameters, and a starting state with
  a zeroed blob and a size field not yet stored to.
\<close>

definition table_provider ::
  "(ucs_status_t \<times> double) list \<Rightarrow> ucp_lane_index_t
     \<Rightarrow> ucs_status_t \<times> ucp_proto_common_tl_perf_t \<times> node" where
  "table_provider tbl l =
     (if unat l < length tbl
      then (fst (tbl ! unat l), \<lparr>latency = snd (tbl ! unat l)\<rparr>, 10 + unat l)
      else (UCS_ERR_OTHER (- 1), \<lparr>latency = NaN\<rparr>, 0))"

definition ex_env ::
  "ucp_lane_index_t list \<Rightarrow> (ucs_status_t \<times> double) list \<Rightarrow> ucs_status_t \<Rightarrow> bool \<Rightarrow> ucp_env" where
  "ex_env lanes tbl caps eh =
     \<lparr>find_lanes = (\<lambda>p t f m x. lanes),
      get_lane_perf = (\<lambda>p. table_provider tbl),
      common_reg_md_map = (\<lambda>p m. 5 * m),
      init_caps = (\<lambda>p perf n md. caps),
      check_err_handling = (\<lambda>p. eh),
      UCP_PROTO_MAX_LANES = 64,
      sizeof_priv = 24\<rparr>"

definition ex_params :: "nat \<Rightarrow> ucp_proto_priority_init_params_t" where
  "ex_params n = \<lparr>proto_name = ''am'', num_priority_lanes = n, exclude_map = 0,
                  tl_cap_flags = 0, lane_type = 0\<rparr>"

definition ex_perf :: ucp_proto_common_tl_perf_t where
  "ex_perf = \<lparr>latency = NaN\<rparr>"

definition ex_state :: pstate where
  "ex_state = \<lparr>trace = [], priv = \<lparr>reg_md_map = 0, lane_map = 0, num_lanes = 0\<rparr>,
               priv_size = None\<rparr>"

text \<open>The configurations used as concrete inputs below.\<close>

definition env_scenario :: ucp_env where
  "env_scenario =
     ex_env [0, 1, 2] [(UCS_OK, Fin 120), (UCS_OK, Fin 45), (UCS_OK, Fin 80)] UCS_OK True"

definition env_tie :: ucp_env where
  "env_tie =
     ex_env [0, 1, 2] [(UCS_OK, Fin 45), (UCS_OK, Fin 30), (UCS_OK, Fin 30)] UCS_OK True"

definition env_no_finite :: ucp_env where
  "env_no_finite = ex_env [0, 1] [(UCS_OK, PInf), (UCS_OK, NaN)] UCS_OK True"

definition env_provider_fails :: ucp_env where
  "env_provider_fails =
     ex_env [0, 1, 2] [(UCS_OK, Fin 120), (UCS_ERR_OTHER (- 3), Fin 45), (UCS_OK, Fin 80)]
       UCS_OK True"

definition env_one_lane :: ucp_env where
  "env_one_lane = ex_env [0] [(UCS_OK, Fin 45)] UCS_OK True"

definition env_empty :: ucp_env where
  "env_empty = ex_env [] [] UCS_OK True"

definition env_caps_fail :: ucp_env where
  "env_caps_fail = ex_env [0] [(UCS_OK, Fin 45)] (UCS_ERR_OTHER (- 4)) True"

section \<open>Basic facts\<close>

lemma trace_emit [simp]: "trace (emit es s) = trace s @ es"
  by (simp add: emit_def)

lemma priv_emit [simp]: "priv (emit es s) = priv s"
  by (simp add: emit_def)

lemma priv_size_emit [simp]: "priv_size (emit es s) = priv_size s"
  by (simp add: emit_def)

lemma emit_emit [simp]: "emit es (emit ds s) = emit (ds @ es) s"
  by (simp add: emit_def)

lemma emit_Nil [simp]: "emit [] s = s"
  by (simp add: emit_def)

lemma events_since_emit [simp]: "events_since s (emit es s) = es"
  by (simp add: events_since_def)

lemma double_lt_irrefl [simp]: "\<not> double_lt a a"
  by (cases a) simp_all

lemma double_lt_trans: "double_lt a b \<Longrightarrow> double_lt b c \<Longrightarrow> double_lt a c"
  by (cases a; cases b; cases c) simp_all

lemma double_lt_not_NaN: "double_lt a b \<Longrightarrow> a \<noteq> NaN \<and> b \<noteq> NaN"
  by (cases a; cases b) simp_all

lemma double_lt_total: "a \<noteq> NaN \<Longrightarrow> b \<noteq> NaN \<Longrightarrow> double_lt a b \<or> a = b \<or> double_lt b a"
  by (cases a; cases b) auto

lemma double_lt_asym: "double_lt a b \<Longrightarrow> \<not> double_lt b a"
  by (cases a; cases b) simp_all

lemma not_lt_PInf: "\<not> double_lt a PInf \<longleftrightarrow> a = PInf \<or> a = NaN"
  by (cases a) simp_all

lemma get_lane_perf_ok:
  "lane_status env p l = UCS_OK \<Longrightarrow>
   ucp_proto_common_get_lane_perf env p l s =
     (UCS_OK, fst (snd (get_lane_perf env p l)), Some (lane_node env p l),
      emit [GetLanePerf l, Acquire (lane_node env p l)] s)"
  by (auto simp: ucp_proto_common_get_lane_perf_def lane_status_def lane_node_def split: prod.splits)

lemma get_lane_perf_fail:
  "lane_status env p l \<noteq> UCS_OK \<Longrightarrow>
   ucp_proto_common_get_lane_perf env p l s =
     (lane_status env p l, fst (snd (get_lane_perf env p l)), None, emit [GetLanePerf l] s)"
  by (auto simp: ucp_proto_common_get_lane_perf_def lane_status_def lane_node_def split: prod.splits)

lemma scan_lanes_step_ok:
  assumes "i < length lanes" "lane_status env p (lanes ! i) = UCS_OK"
  shows "scan_lanes env p lanes i v s =
    scan_lanes env p lanes (Suc i)
      (let lp = fst (snd (get_lane_perf env p (lanes ! i)));
           v1 = v\<lparr>lanes_perf := (lanes_perf v)(lanes ! i := Some lp),
                   lanes_perf_nodes := (lanes_perf_nodes v)(lanes ! i := Some (lane_node env p (lanes ! i)))\<rparr>
       in if double_gt (min_latency v1) (latency lp)
          then v1\<lparr>min_latency := latency lp, min_lat_lane_index := i\<rparr> else v1)
      (emit [GetLanePerf (lanes ! i), Acquire (lane_node env p (lanes ! i))] s)"
  using assms
  by (subst scan_lanes.simps) (simp add: get_lane_perf_ok Let_def)

lemma scan_lanes_step_fail:
  assumes "i < length lanes" "lane_status env p (lanes ! i) \<noteq> UCS_OK"
  shows "scan_lanes env p lanes i v s =
    (lane_status env p (lanes ! i), v, emit [GetLanePerf (lanes ! i)] s)"
  using assms
  by (subst scan_lanes.simps) (simp add: get_lane_perf_fail Let_def)

lemma scan_lanes_done:
  "\<not> i < length lanes \<Longrightarrow> scan_lanes env p lanes i v s = (UCS_OK, v, s)"
  by (subst scan_lanes.simps) simp

lemma scan_lanes_ok:
  assumes "\<forall>j. i \<le> j \<and> j < length lanes \<longrightarrow> lane_status env p (lanes ! j) = UCS_OK"
  shows "\<exists>v'. scan_lanes env p lanes i v s = (UCS_OK, v', emit (scan_events env p (drop i lanes)) s)
           \<and> (\<forall>l \<in> set (drop i lanes). lanes_perf_nodes v' l = Some (lane_node env p l))
           \<and> (\<forall>l. l \<notin> set (drop i lanes) \<longrightarrow> lanes_perf_nodes v' l = lanes_perf_nodes v l)
           \<and> (min_latency v', min_lat_lane_index v') =
               fold (min_step (\<lambda>j. lane_latency env p (lanes ! j))) [i..<length lanes]
                 (min_latency v, min_lat_lane_index v)"
  using assms
proof (induction "length lanes - i" arbitrary: i v s)
  case 0
  then show ?case by (simp add: scan_lanes_done scan_events_def)
next
  case (Suc n)
  then have lt: "i < length lanes" and ok: "lane_status env p (lanes ! i) = UCS_OK"
    by auto
  define v2 where "v2 = (let lp = fst (snd (get_lane_perf env p (lanes ! i)));
           v1 = v\<lparr>lanes_perf := (lanes_perf v)(lanes ! i := Some lp),
                   lanes_perf_nodes := (lanes_perf_nodes v)(lanes ! i := Some (lane_node env p (lanes ! i)))\<rparr>
       in if double_gt (min_latency v1) (latency lp)
          then v1\<lparr>min_latency := latency lp, min_lat_lane_index := i\<rparr> else v1)"
  define s1 where "s1 = emit [GetLanePerf (lanes ! i), Acquire (lane_node env p (lanes ! i))] s"
  have step: "scan_lanes env p lanes i v s = scan_lanes env p lanes (Suc i) v2 s1"
    unfolding v2_def s1_def by (rule scan_lanes_step_ok [OF lt ok])
  have n: "n = length lanes - Suc i" using Suc.hyps(2) by simp
  have oks: "\<forall>j. Suc i \<le> j \<and> j < length lanes \<longrightarrow> lane_status env p (lanes ! j) = UCS_OK"
    using Suc.prems by simp
  from Suc.hyps(1) [OF n oks, of v2 s1]
  obtain v' where r: "scan_lanes env p lanes (Suc i) v2 s1 =
        (UCS_OK, v', emit (scan_events env p (drop (Suc i) lanes)) s1)"
     and nodes: "\<forall>l \<in> set (drop (Suc i) lanes). lanes_perf_nodes v' l = Some (lane_node env p l)"
     and others: "\<forall>l. l \<notin> set (drop (Suc i) lanes) \<longrightarrow> lanes_perf_nodes v' l = lanes_perf_nodes v2 l"
     and mins: "(min_latency v', min_lat_lane_index v') =
               fold (min_step (\<lambda>j. lane_latency env p (lanes ! j))) [Suc i..<length lanes]
                 (min_latency v2, min_lat_lane_index v2)"
    by blast
  have drop: "drop i lanes = lanes ! i # drop (Suc i) lanes"
    using lt by (simp add: Cons_nth_drop_Suc)
  have v2n: "lanes_perf_nodes v2 = (lanes_perf_nodes v)(lanes ! i := Some (lane_node env p (lanes ! i)))"
    by (simp add: v2_def Let_def)
  have v2m: "(min_latency v2, min_lat_lane_index v2) =
      min_step (\<lambda>j. lane_latency env p (lanes ! j)) i (min_latency v, min_lat_lane_index v)"
    by (simp add: v2_def Let_def min_step_def lane_latency_def)
  have ev: "emit (scan_events env p (drop (Suc i) lanes)) s1 = emit (scan_events env p (drop i lanes)) s"
    by (simp add: s1_def drop scan_events_def)
  have upt: "[i..<length lanes] = i # [Suc i..<length lanes]"
    using lt by (simp add: upt_conv_Cons)
  show ?case
  proof (intro exI conjI)
    show "scan_lanes env p lanes i v s = (UCS_OK, v', emit (scan_events env p (drop i lanes)) s)"
      using step r ev by simp
    show "\<forall>l \<in> set (drop i lanes). lanes_perf_nodes v' l = Some (lane_node env p l)"
      using nodes others v2n by (auto simp: drop)
    show "\<forall>l. l \<notin> set (drop i lanes) \<longrightarrow> lanes_perf_nodes v' l = lanes_perf_nodes v l"
      using others v2n by (auto simp: drop)
    show "(min_latency v', min_lat_lane_index v') =
               fold (min_step (\<lambda>j. lane_latency env p (lanes ! j))) [i..<length lanes]
                 (min_latency v, min_lat_lane_index v)"
      using mins v2m by (simp add: upt)
  qed
qed


lemma argmin_inv_init: "argmin_inv L 0 (INFINITY, 0)"
  by (simp add: argmin_inv_def INFINITY_def)

lemma double_le_lt_trans: "double_le a b \<Longrightarrow> double_lt b c \<Longrightarrow> double_lt a c"
  by (auto simp: double_le_def double_eq_def intro: double_lt_trans)

lemma argmin_inv_step:
  assumes "argmin_inv L i mk"
  shows "argmin_inv L (Suc i) (min_step L i mk)"
proof (cases "double_lt (L i) (fst mk)")
  case True
  have a: "\<forall>j<i. \<not> double_lt (L j) (fst mk)"
    using assms by (simp add: argmin_inv_def)
  have "\<not> double_lt (L j) (L i)" if "j < Suc i" for j
  proof (cases "j = i")
    case True then show ?thesis by simp
  next
    case False
    with that have "j < i" by simp
    with a have "\<not> double_lt (L j) (fst mk)" by simp
    with True show ?thesis using double_lt_trans by blast
  qed
  moreover have "\<not> double_le (L j) (L i)" if "j < i" for j
    using a that True double_le_lt_trans by blast
  moreover have "double_lt (L i) PInf"
    using True by (cases "L i"; cases "fst mk") simp_all
  ultimately show ?thesis
    using True by (simp add: argmin_inv_def min_step_def double_gt_def)
next
  case False
  have "j < Suc i \<Longrightarrow> \<not> double_lt (L j) (fst mk)" for j
    using assms False by (cases "j = i") (auto simp: argmin_inv_def)
  then show ?thesis
    using assms False by (auto simp: argmin_inv_def min_step_def double_gt_def)
qed

lemma argmin_inv_fold:
  "argmin_inv L i mk \<Longrightarrow> i \<le> n \<Longrightarrow> argmin_inv L n (fold (min_step L) [i..<n] mk)"
proof (induction n)
  case 0
  then show ?case by simp
next
  case (Suc n)
  show ?case
  proof (cases "i = Suc n")
    case True
    with Suc.prems show ?thesis by simp
  next
    case False
    with Suc.prems have "i \<le> n" by simp
    with Suc show ?thesis by (simp add: argmin_inv_step)
  qed
qed

lemma selected_index_inv:
  "\<exists>m. argmin_inv (\<lambda>j. lane_latency env p (lanes ! j)) (length lanes) (m, selected_index env p lanes)"
proof -
  obtain m k where mk: "fold (min_step (\<lambda>j. lane_latency env p (lanes ! j))) [0..<length lanes] (INFINITY, 0) = (m, k)"
    by (cases "fold (min_step (\<lambda>j. lane_latency env p (lanes ! j))) [0..<length lanes] (INFINITY, 0)")
  have "argmin_inv (\<lambda>j. lane_latency env p (lanes ! j)) (length lanes)
          (fold (min_step (\<lambda>j. lane_latency env p (lanes ! j))) [0..<length lanes] (INFINITY, 0))"
    by (rule argmin_inv_fold [OF argmin_inv_init]) simp
  then show ?thesis by (auto simp: mk selected_index_def)
qed

lemma selected_index_less: "lanes \<noteq> [] \<Longrightarrow> selected_index env p lanes < length lanes"
  using selected_index_inv [of env p lanes] by (auto simp: argmin_inv_def)

lemma deref_lanes_all:
  assumes "\<forall>l\<in>set lanes. nodes l = Some (f l)"
  shows "deref_lanes lanes nodes s = emit (map (\<lambda>l. Release (f l)) lanes) s"
proof -
  have "fold (\<lambda>i. ucp_proto_perf_node_deref (nodes (lanes ! i))) [0..<length lanes] s
      = fold (\<lambda>l. ucp_proto_perf_node_deref (nodes l)) (map (\<lambda>i. lanes ! i) [0..<length lanes]) s"
    by (simp add: fold_map comp_def)
  also have "\<dots> = fold (\<lambda>l. ucp_proto_perf_node_deref (nodes l)) lanes s"
    by (simp add: map_nth)
  also have "\<dots> = emit (map (\<lambda>l. Release (f l)) lanes) s"
    using assms
  proof (induction lanes arbitrary: s)
    case Nil then show ?case by simp
  next
    case (Cons l ls)
    then show ?case by (simp add: ucp_proto_perf_node_deref_def)
  qed
  finally show ?thesis by (simp add: deref_lanes_def)
qed

lemma init_priv_ok_run:
  assumes c: "candidates env params = lanes" and ne: "lanes \<noteq> []"
    and ok: "\<forall>l\<in>set lanes. lane_status env (params_super params) l = UCS_OK"
  shows "ucp_proto_priority_init_priv env params perf s =
     (init_caps env (params_super params) perf
        (Some (lane_node env (params_super params)
           (lanes ! selected_index env (params_super params) lanes)))
        (common_reg_md_map env (params_super params)
           (UCS_BIT (unat (lanes ! selected_index env (params_super params) lanes)))),
      emit (ok_events env (params_super params) lanes
              (selected_index env (params_super params) lanes)) s)"
proof -
  define p where "p = params_super params"
  define k where "k = selected_index env p lanes"
  have oks: "\<forall>j. 0 \<le> j \<and> j < length lanes \<longrightarrow> lane_status env p (lanes ! j) = UCS_OK"
    using ok by (simp add: p_def)
  from scan_lanes_ok [OF oks, of scan_init "emit [FindLanes] s"]
  obtain v where r: "scan_lanes env p lanes 0 scan_init (emit [FindLanes] s) =
        (UCS_OK, v, emit (scan_events env p lanes) (emit [FindLanes] s))"
    and nodes: "\<forall>l\<in>set lanes. lanes_perf_nodes v l = Some (lane_node env p l)"
    and mins: "(min_latency v, min_lat_lane_index v) =
        fold (min_step (\<lambda>j. lane_latency env p (lanes ! j))) [0..<length lanes]
          (min_latency scan_init, min_lat_lane_index scan_init)"
    by auto
  have idx: "min_lat_lane_index v = k"
    using mins by (simp add: k_def selected_index_def scan_init_def) (metis snd_conv)
  have klt: "k < length lanes"
    unfolding k_def by (rule selected_index_less [OF ne])
  then have nk: "lanes_perf_nodes v (lanes ! k) = Some (lane_node env p (lanes ! k))"
    using nodes by simp
  have fl: "ucp_proto_common_find_lanes env p (lane_type params) (tl_cap_flags params)
             (UCP_PROTO_MAX_LANES env) (exclude_map params) s = (lanes, emit [FindLanes] s)"
    using c by (simp add: ucp_proto_common_find_lanes_def candidates_def p_def)
  have d: "deref_lanes lanes (lanes_perf_nodes v) s' = emit (map (\<lambda>l. Release (lane_node env p l)) lanes) s'" for s'
    by (rule deref_lanes_all) (use nodes in simp)
  show ?thesis
    unfolding ucp_proto_priority_init_priv_def p_def [symmetric] k_def [symmetric] Let_def
    using ne
    by (simp add: fl r idx nk d ucp_proto_common_reg_md_map_def ucp_proto_perf_node_ref_def
        ucp_proto_common_init_caps_def ucp_proto_perf_node_deref_def ok_events_def)
qed

section \<open>Facts about runs\<close>

lemma events_since_emit_emit [simp]:
  "events_since s (emit es (emit ds s)) = ds @ es"
  by (simp add: events_since_def)

lemma init_priv_empty_run:
  "candidates env params = [] \<Longrightarrow>
   ucp_proto_priority_init_priv env params perf s = (UCS_ERR_NO_ELEM, emit [FindLanes] s)"
  by (simp add: ucp_proto_priority_init_priv_def ucp_proto_common_find_lanes_def candidates_def)

lemma lane_maps_of_append: "lane_maps_of (xs @ ys) = lane_maps_of xs @ lane_maps_of ys"
  by (induction xs rule: lane_maps_of.induct) simp_all

lemma caps_nodes_of_append: "caps_nodes_of (xs @ ys) = caps_nodes_of xs @ caps_nodes_of ys"
  by (induction xs rule: caps_nodes_of.induct) simp_all

lemma lane_maps_of_scan_events [simp]: "lane_maps_of (scan_events env p ls) = []"
  by (induction ls) (simp_all add: scan_events_def)

lemma caps_nodes_of_scan_events [simp]: "caps_nodes_of (scan_events env p ls) = []"
  by (induction ls) (simp_all add: scan_events_def)

lemma filter_InitCaps_scan_events [simp]: "filter is_InitCaps (scan_events env p ls) = []"
  by (induction ls) (simp_all add: scan_events_def)

lemma lane_maps_of_releases [simp]: "lane_maps_of (map (\<lambda>l. Release (f l)) ls) = []"
  by (induction ls) simp_all

lemma caps_nodes_of_releases [simp]: "caps_nodes_of (map (\<lambda>l. Release (f l)) ls) = []"
  by (induction ls) simp_all

lemma filter_InitCaps_releases [simp]: "filter is_InitCaps (map (\<lambda>l. Release (f l)) ls) = []"
  by (induction ls) simp_all

lemma lane_maps_of_ok_events:
  "lane_maps_of (ok_events env p lanes k) = [UCS_BIT (unat (lanes ! k))]"
  by (simp add: ok_events_def lane_maps_of_append)

lemma caps_nodes_of_ok_events:
  "caps_nodes_of (ok_events env p lanes k) = [Some (lane_node env p (lanes ! k))]"
  by (simp add: ok_events_def caps_nodes_of_append)

lemma filter_InitCaps_ok_events:
  "filter is_InitCaps (ok_events env p lanes k) =
     [InitCaps (Some (lane_node env p (lanes ! k)))
        (common_reg_md_map env p (UCS_BIT (unat (lanes ! k))))]"
  by (simp add: ok_events_def)

lemma acquisitions_Nil [simp]: "acquisitions [] = 0"
  by (simp add: acquisitions_def)

lemma acquisitions_Cons [simp]:
  "acquisitions (e # es) = (if is_Acquire e then 1 else 0) + acquisitions es"
  by (simp add: acquisitions_def)

lemma acquisitions_append [simp]: "acquisitions (xs @ ys) = acquisitions xs + acquisitions ys"
  by (simp add: acquisitions_def)

lemma releases_Nil [simp]: "releases [] = 0"
  by (simp add: releases_def)

lemma releases_Cons [simp]:
  "releases (e # es) = (if is_Release e then 1 else 0) + releases es"
  by (simp add: releases_def)

lemma releases_append [simp]: "releases (xs @ ys) = releases xs + releases ys"
  by (simp add: releases_def)

lemma acquisitions_scan_events [simp]: "acquisitions (scan_events env p ls) = length ls"
  by (induction ls) (simp_all add: scan_events_def)

lemma releases_scan_events [simp]: "releases (scan_events env p ls) = 0"
  by (induction ls) (simp_all add: scan_events_def)

lemma acquisitions_map_Release [simp]: "acquisitions (map (\<lambda>l. Release (f l)) ls) = 0"
  by (induction ls) simp_all

lemma releases_map_Release [simp]: "releases (map (\<lambda>l. Release (f l)) ls) = length ls"
  by (induction ls) simp_all

lemma acquisitions_ok_events: "acquisitions (ok_events env p lanes k) = length lanes + 1"
  by (simp add: ok_events_def)

lemma releases_ok_events: "releases (ok_events env p lanes k) = length lanes + 1"
  by (simp add: ok_events_def)

lemma scan_lanes_frame:
  "priv (snd (snd (scan_lanes env p lanes i v s))) = priv s \<and>
   priv_size (snd (snd (scan_lanes env p lanes i v s))) = priv_size s"
proof (induction "length lanes - i" arbitrary: i v s)
  case 0
  then show ?case by (simp add: scan_lanes_done)
next
  case (Suc n)
  then have lt: "i < length lanes" by simp
  show ?case
  proof (cases "lane_status env p (lanes ! i) = UCS_OK")
    case True
    have n: "n = length lanes - Suc i" using Suc.hyps(2) by simp
    show ?thesis
      by (simp only: scan_lanes_step_ok [OF lt True] Suc.hyps(1) [OF n]) simp
  next
    case False
    then show ?thesis by (simp add: scan_lanes_step_fail [OF lt False])
  qed
qed

lemma deref_frame:
  "priv (ucp_proto_perf_node_deref p s) = priv s \<and>
   priv_size (ucp_proto_perf_node_deref p s) = priv_size s"
  by (simp add: ucp_proto_perf_node_deref_def split: option.splits)

lemma fold_deref_frame:
  "priv (fold (\<lambda>i. ucp_proto_perf_node_deref (f i)) xs s) = priv s \<and>
   priv_size (fold (\<lambda>i. ucp_proto_perf_node_deref (f i)) xs s) = priv_size s"
  by (induction xs arbitrary: s) (simp_all add: deref_frame)

lemma deref_lanes_frame:
  "priv (deref_lanes lanes nodes s) = priv s \<and>
   priv_size (deref_lanes lanes nodes s) = priv_size s"
  unfolding deref_lanes_def by (rule fold_deref_frame)

lemma init_priv_frame:
  "priv (snd (ucp_proto_priority_init_priv env params perf s)) = priv s \<and>
   priv_size (snd (ucp_proto_priority_init_priv env params perf s)) = priv_size s"
proof -
  define s1 where "s1 = emit [FindLanes] s"
  define lanes where "lanes = candidates env params"
  obtain st v s2 where r: "scan_lanes env (params_super params) lanes 0 scan_init s1 = (st, v, s2)"
    by (metis prod_cases3)
  have f2: "priv s2 = priv s \<and> priv_size s2 = priv_size s"
    using scan_lanes_frame [of env "params_super params" lanes 0 scan_init s1] r
    by (simp add: s1_def)
  have f1: "priv s1 = priv s \<and> priv_size s1 = priv_size s"
    by (simp add: s1_def)
  show ?thesis
    unfolding ucp_proto_priority_init_priv_def ucp_proto_common_find_lanes_def Let_def
    using r f1 f2
    by (simp add: candidates_def [symmetric] lanes_def [symmetric] s1_def [symmetric]
        ucp_proto_common_reg_md_map_def ucp_proto_perf_node_ref_def
        ucp_proto_common_init_caps_def deref_frame deref_lanes_frame
        split: prod.splits option.splits)
qed

lemma bit_UCS_BIT: "i < 64 \<Longrightarrow> bit (UCS_BIT i) n \<longleftrightarrow> n = i"
  by (auto simp: UCS_BIT_def bit_simps)

lemma double_le_not_NaN: "double_le a b \<Longrightarrow> a \<noteq> NaN \<and> b \<noteq> NaN"
  by (auto simp: double_le_def double_eq_def dest: double_lt_not_NaN)

lemma init_priv_ok_events:
  assumes "candidates env params = lanes" and "lanes \<noteq> []"
    and "\<forall>l\<in>set lanes. lane_status env (params_super params) l = UCS_OK"
  shows "events_since s (snd (ucp_proto_priority_init_priv env params perf s)) =
           ok_events env (params_super params) lanes
             (selected_index env (params_super params) lanes)"
  by (simp add: init_priv_ok_run [OF assms])

lemma lane_latency_ex_env:
  "lane_latency (ex_env lanes tbl caps eh) p l =
     (if unat l < length tbl then snd (tbl ! unat l) else NaN)"
  by (simp add: lane_latency_def ex_env_def table_provider_def)

lemma lane_status_ex_env:
  "lane_status (ex_env lanes tbl caps eh) p l =
     (if unat l < length tbl then fst (tbl ! unat l) else UCS_ERR_OTHER (- 1))"
  by (simp add: lane_status_def ex_env_def table_provider_def)

lemma lane_node_ex_env:
  "lane_node (ex_env lanes tbl caps eh) p l = (if unat l < length tbl then 10 + unat l else 0)"
  by (simp add: lane_node_def ex_env_def table_provider_def)

lemma candidates_ex_env: "candidates (ex_env lanes tbl caps eh) params = lanes"
  by (simp add: candidates_def ex_env_def)

lemma scan_lanes_first_failure:
  assumes "i \<le> k" and "k < length lanes"
    and "\<forall>j. i \<le> j \<and> j < k \<longrightarrow> lane_status env p (lanes ! j) = UCS_OK"
    and "lane_status env p (lanes ! k) \<noteq> UCS_OK"
  shows "\<exists>v'. scan_lanes env p lanes i v s =
           (lane_status env p (lanes ! k), v',
            emit (scan_events env p (take (k - i) (drop i lanes)) @ [GetLanePerf (lanes ! k)]) s)"
  using assms
proof (induction "k - i" arbitrary: i v s)
  case 0
  then have "i = k" by simp
  with 0 show ?case
    by (simp add: scan_lanes_step_fail scan_events_def)
next
  case (Suc n)
  then have lt: "i < length lanes" and ik: "i < k" and ok: "lane_status env p (lanes ! i) = UCS_OK"
    by auto
  have n: "n = k - Suc i" using Suc.hyps(2) by simp
  have oks: "\<forall>j. Suc i \<le> j \<and> j < k \<longrightarrow> lane_status env p (lanes ! j) = UCS_OK"
    using Suc.prems by simp
  have le: "Suc i \<le> k" using ik by simp
  have tk: "take (k - i) (drop i lanes) = lanes ! i # take (k - Suc i) (drop (Suc i) lanes)"
    using lt ik by (simp add: Cons_nth_drop_Suc [symmetric] take_Suc_Cons [symmetric] Suc_diff_Suc
        del: take_Suc_Cons)
  define v2 where "v2 = (let lp = fst (snd (get_lane_perf env p (lanes ! i)));
           v1 = v\<lparr>lanes_perf := (lanes_perf v)(lanes ! i := Some lp),
                   lanes_perf_nodes := (lanes_perf_nodes v)(lanes ! i := Some (lane_node env p (lanes ! i)))\<rparr>
       in if double_gt (min_latency v1) (latency lp)
          then v1\<lparr>min_latency := latency lp, min_lat_lane_index := i\<rparr> else v1)"
  define s1 where "s1 = emit [GetLanePerf (lanes ! i), Acquire (lane_node env p (lanes ! i))] s"
  have step: "scan_lanes env p lanes i v s = scan_lanes env p lanes (Suc i) v2 s1"
    unfolding v2_def s1_def by (rule scan_lanes_step_ok [OF lt ok])
  from Suc.hyps(1) [OF n le Suc.prems(2) oks Suc.prems(4), of v2 s1]
  obtain v' where "scan_lanes env p lanes (Suc i) v2 s1 =
           (lane_status env p (lanes ! k), v',
            emit (scan_events env p (take (k - Suc i) (drop (Suc i) lanes))
                    @ [GetLanePerf (lanes ! k)]) s1)"
    by blast
  then show ?case
    by (simp add: step tk s1_def scan_events_def)
qed

lemma init_priv_provider_failure_run:
  assumes c: "candidates env params = lanes" and k: "k < length lanes"
    and ok: "\<forall>j<k. lane_status env (params_super params) (lanes ! j) = UCS_OK"
    and bad: "lane_status env (params_super params) (lanes ! k) \<noteq> UCS_OK"
  shows "ucp_proto_priority_init_priv env params perf s =
           (lane_status env (params_super params) (lanes ! k),
            emit (FindLanes # scan_events env (params_super params) (take k lanes)
                    @ [GetLanePerf (lanes ! k)]) s)"
proof -
  have ne: "length lanes \<noteq> 0" using k by auto
  have oks: "\<forall>j. 0 \<le> j \<and> j < k \<longrightarrow> lane_status env (params_super params) (lanes ! j) = UCS_OK"
    using ok by simp
  from scan_lanes_first_failure [OF _ k oks bad, where v = scan_init and s = "emit [FindLanes] s"]
  obtain v' where r: "scan_lanes env (params_super params) lanes 0 scan_init (emit [FindLanes] s) =
           (lane_status env (params_super params) (lanes ! k), v',
            emit (scan_events env (params_super params) (take k lanes) @ [GetLanePerf (lanes ! k)])
              (emit [FindLanes] s))"
    by auto
  show ?thesis
    unfolding ucp_proto_priority_init_priv_def ucp_proto_common_find_lanes_def Let_def
    using ne bad
    by (simp add: candidates_def [symmetric] c r)
qed

lemma init_priv_provider_failure_unbalanced:
  assumes "candidates env params = lanes" and "k < length lanes"
    and "\<forall>j<k. lane_status env (params_super params) (lanes ! j) = UCS_OK"
    and "lane_status env (params_super params) (lanes ! k) \<noteq> UCS_OK"
  shows "acquisitions (events_since s (snd (ucp_proto_priority_init_priv env params perf s))) = k \<and>
         releases (events_since s (snd (ucp_proto_priority_init_priv env params perf s))) = 0"
  using assms(2) by (simp add: init_priv_provider_failure_run [OF assms])

lemma init_priv_ok_run_balanced:
  assumes "candidates env params = lanes" and "lanes \<noteq> []"
    and "\<forall>l\<in>set lanes. lane_status env (params_super params) l = UCS_OK"
  shows "acquisitions (events_since s (snd (ucp_proto_priority_init_priv env params perf s)))
           = length lanes + 1 \<and>
         releases (events_since s (snd (ucp_proto_priority_init_priv env params perf s)))
           = length lanes + 1"
  by (simp add: init_priv_ok_events [OF assms] acquisitions_ok_events releases_ok_events)

section \<open>The selection\<close>

text \<open>
  Claim C1. Let the Lane Catalog return a non-empty candidate list, let every Provider
  query on it succeed, and let the latencies be pairwise distinct: of any two candidates
  one has the strictly smaller latency, by the comparison of doubles the code uses (which
  holds for distinct latencies none of which is a NaN, as for the latencies \<open>\<ge> 0\<close> of the
  data model). With every lane index below the 64 bits of the lane map,
  \<open>ucp_proto_priority_init_priv\<close> selects the candidate whose latency is strictly below
  that of every other candidate: the one lane map it hands to the Registration Map
  Builder is \<open>UCS_BIT\<close> of that lane, in which exactly that lane's bit is set, and the
  one node it hands to the Aggregator is that lane's node. In the scenario
  of candidates \<open>[0, 1, 2]\<close> with latencies \<open>[120, 45, 80]\<close> the lane map is \<open>2\<close>, that
  is \<open>{1}\<close>.
\<close>

theorem init_priv_selects_min_latency:
  assumes c: "candidates env params = lanes" and ne: "lanes \<noteq> []"
    and ok: "\<forall>l\<in>set lanes. lane_status env (params_super params) l = UCS_OK"
    and dist: "\<forall>i<length lanes. \<forall>j<length lanes. i \<noteq> j \<longrightarrow>
        double_lt (lane_latency env (params_super params) (lanes ! i))
                  (lane_latency env (params_super params) (lanes ! j)) \<or>
        double_lt (lane_latency env (params_super params) (lanes ! j))
                  (lane_latency env (params_super params) (lanes ! i))"
    and bits: "\<forall>l\<in>set lanes. unat l < 64"
  shows "\<exists>k<length lanes.
           (\<forall>j<length lanes. j \<noteq> k \<longrightarrow>
              double_lt (lane_latency env (params_super params) (lanes ! k))
                        (lane_latency env (params_super params) (lanes ! j))) \<and>
           lane_maps_of (events_since s (snd (ucp_proto_priority_init_priv env params perf s)))
             = [UCS_BIT (unat (lanes ! k))] \<and>
           caps_nodes_of (events_since s (snd (ucp_proto_priority_init_priv env params perf s)))
             = [Some (lane_node env (params_super params) (lanes ! k))] \<and>
           (\<forall>n. bit (UCS_BIT (unat (lanes ! k))) n \<longleftrightarrow> n = unat (lanes ! k))"
proof -
  define p where "p = params_super params"
  define L where "L = (\<lambda>j. lane_latency env p (lanes ! j))"
  define k where "k = selected_index env p lanes"
  have klt: "k < length lanes"
    unfolding k_def by (rule selected_index_less [OF ne])
  obtain m where inv: "argmin_inv L (length lanes) (m, k)"
    using selected_index_inv [of env p lanes] by (auto simp: L_def k_def)
  have cmp: "double_lt (L i) (L j) \<or> double_lt (L j) (L i)"
    if "i < length lanes" "j < length lanes" "i \<noteq> j" for i j
    using dist that by (simp add: L_def p_def)
  have smin: "double_lt (L k) (L j)" if j: "j < length lanes" "j \<noteq> k" for j
  proof -
    from inv consider
      (start) "m = PInf" "k = 0" "\<forall>j<length lanes. \<not> double_lt (L j) PInf"
      | (found) "L k = m" "\<forall>j<length lanes. \<not> double_lt (L j) (L k)"
      by (auto simp: argmin_inv_def)
    then show ?thesis
    proof cases
      case start
      from start(3) j klt have "L j = PInf \<or> L j = NaN" "L k = PInf \<or> L k = NaN"
        by (simp_all add: not_lt_PInf)
      then have "\<not> double_lt (L j) (L k)" "\<not> double_lt (L k) (L j)"
        by auto
      with cmp [OF j(1) klt j(2)] show ?thesis by simp
    next
      case found
      with cmp [OF j(1) klt j(2)] j show ?thesis by auto
    qed
  qed
  have ev: "events_since s (snd (ucp_proto_priority_init_priv env params perf s)) =
              ok_events env p lanes k"
    unfolding p_def k_def by (rule init_priv_ok_events [OF c ne ok])
  have "unat (lanes ! k) < 64"
    using bits klt by simp
  then have one: "\<forall>n. bit (UCS_BIT (unat (lanes ! k))) n \<longleftrightarrow> n = unat (lanes ! k)"
    by (simp add: bit_UCS_BIT)
  show ?thesis
    using klt smin one
    by (intro exI [of _ k])
      (simp add: ev lane_maps_of_ok_events caps_nodes_of_ok_events L_def p_def)
qed

theorem init_priv_selects_min_latency_witness:
  "candidates env_scenario (ex_params 1) = [0, 1, 2] \<and>
   lane_maps_of (events_since ex_state
     (snd (ucp_proto_priority_init_priv env_scenario (ex_params 1) ex_perf ex_state))) = [2] \<and>
   caps_nodes_of (events_since ex_state
     (snd (ucp_proto_priority_init_priv env_scenario (ex_params 1) ex_perf ex_state)))
     = [Some 11]"
proof -
  have c: "candidates env_scenario (ex_params 1) = [0, 1, 2]"
    by (simp add: env_scenario_def candidates_ex_env)
  have ne: "[0, 1, 2 :: ucp_lane_index_t] \<noteq> []"
    by simp
  have ok: "\<forall>l\<in>set [0, 1, 2]. lane_status env_scenario (params_super (ex_params 1)) l = UCS_OK"
    by (simp add: env_scenario_def lane_status_ex_env)
  have dist: "\<forall>i<length [0, 1, 2 :: ucp_lane_index_t]. \<forall>j<length [0, 1, 2 :: ucp_lane_index_t].
      i \<noteq> j \<longrightarrow>
        double_lt (lane_latency env_scenario (params_super (ex_params 1)) ([0, 1, 2] ! i))
                  (lane_latency env_scenario (params_super (ex_params 1)) ([0, 1, 2] ! j)) \<or>
        double_lt (lane_latency env_scenario (params_super (ex_params 1)) ([0, 1, 2] ! j))
                  (lane_latency env_scenario (params_super (ex_params 1)) ([0, 1, 2] ! i))"
    by (auto simp: env_scenario_def lane_latency_ex_env less_Suc_eq numeral_3_eq_3)
  have bits: "\<forall>l\<in>set [0, 1, 2 :: ucp_lane_index_t]. unat l < 64"
    by simp
  from init_priv_selects_min_latency [OF c ne ok dist bits, of ex_state ex_perf]
  obtain k where k: "k < length [0, 1, 2 :: ucp_lane_index_t]"
    and smin: "\<forall>j<length [0, 1, 2 :: ucp_lane_index_t]. j \<noteq> k \<longrightarrow>
        double_lt (lane_latency env_scenario (params_super (ex_params 1)) ([0, 1, 2] ! k))
                  (lane_latency env_scenario (params_super (ex_params 1)) ([0, 1, 2] ! j))"
    and lm: "lane_maps_of (events_since ex_state
        (snd (ucp_proto_priority_init_priv env_scenario (ex_params 1) ex_perf ex_state)))
        = [UCS_BIT (unat ([0, 1, 2 :: ucp_lane_index_t] ! k))]"
    and cn: "caps_nodes_of (events_since ex_state
        (snd (ucp_proto_priority_init_priv env_scenario (ex_params 1) ex_perf ex_state)))
        = [Some (lane_node env_scenario (params_super (ex_params 1)) ([0, 1, 2] ! k))]"
    by blast
  have "k = 1"
    using k smin
    by (auto simp: env_scenario_def lane_latency_ex_env less_Suc_eq numeral_3_eq_3)
  then show ?thesis
    using c lm cn by (simp add: UCS_BIT_def env_scenario_def lane_node_ex_env)
qed

text \<open>
  Claim C4. Let the Lane Catalog return a non-empty candidate list on which every
  Provider query succeeds, let \<open>m\<close> be the minimal latency (\<open>m \<le>\<close> every candidate's
  latency) and let two different candidates have latency \<open>m\<close>. Then
  \<open>ucp_proto_priority_init_priv\<close> selects the candidate at the lowest index of the list
  among those with latency \<open>m\<close>, and it is this same candidate in every run on these
  inputs, whatever the state the run starts in.
\<close>

theorem init_priv_tie_keeps_earliest:
  assumes c: "candidates env params = lanes" and ne: "lanes \<noteq> []"
    and ok: "\<forall>l\<in>set lanes. lane_status env (params_super params) l = UCS_OK"
    and least: "\<forall>j<length lanes.
        double_le m (lane_latency env (params_super params) (lanes ! j))"
    and tie: "a < length lanes" "b < length lanes" "a \<noteq> b"
      "double_eq (lane_latency env (params_super params) (lanes ! a)) m"
      "double_eq (lane_latency env (params_super params) (lanes ! b)) m"
  shows "\<exists>k<length lanes.
           double_eq (lane_latency env (params_super params) (lanes ! k)) m \<and>
           (\<forall>j<k. \<not> double_eq (lane_latency env (params_super params) (lanes ! j)) m) \<and>
           (\<forall>perf s.
              lane_maps_of
                (events_since s (snd (ucp_proto_priority_init_priv env params perf s)))
                = [UCS_BIT (unat (lanes ! k))] \<and>
              caps_nodes_of
                (events_since s (snd (ucp_proto_priority_init_priv env params perf s)))
                = [Some (lane_node env (params_super params) (lanes ! k))])"
proof -
  define p where "p = params_super params"
  define L where "L = (\<lambda>j. lane_latency env p (lanes ! j))"
  define k where "k = selected_index env p lanes"
  have klt: "k < length lanes"
    unfolding k_def by (rule selected_index_less [OF ne])
  obtain m' where inv: "argmin_inv L (length lanes) (m', k)"
    using selected_index_inv [of env p lanes] by (auto simp: L_def k_def)
  have le: "double_le m (L j)" if "j < length lanes" for j
    using least that by (simp add: L_def p_def)
  have La: "L a = m" "m \<noteq> NaN"
    using tie(4) by (auto simp: double_eq_def L_def p_def)
  from inv consider
    (start) "k = 0" "\<forall>j<length lanes. \<not> double_lt (L j) PInf"
    | (found) "\<forall>j<length lanes. \<not> double_lt (L j) (L k)" "\<forall>j<k. \<not> double_le (L j) (L k)"
    by (auto simp: argmin_inv_def)
  then have first: "double_eq (L k) m \<and> (\<forall>j<k. \<not> double_eq (L j) m)"
  proof cases
    case start
    have "L j = PInf" if "j < length lanes" for j
      using start(2) le [OF that] that double_le_not_NaN by (auto simp: not_lt_PInf)
    with klt tie(1) La have "L k = m" by metis
    with La start(1) show ?thesis by (simp add: double_eq_def)
  next
    case found
    from found(1) tie(1) La have "\<not> double_lt m (L k)" by auto
    with le [OF klt] have "double_eq m (L k)" by (simp add: double_le_def)
    then have "L k = m" by (simp add: double_eq_def)
    with La found(2) show ?thesis by (auto simp: double_eq_def double_le_def)
  qed
  have ev: "events_since s (snd (ucp_proto_priority_init_priv env params perf s)) =
              ok_events env p lanes k" for perf s
    unfolding p_def k_def by (rule init_priv_ok_events [OF c ne ok])
  show ?thesis
    using klt first
    by (intro exI [of _ k])
      (simp add: ev lane_maps_of_ok_events caps_nodes_of_ok_events L_def p_def)
qed

theorem init_priv_tie_keeps_earliest_witness:
  "candidates env_tie (ex_params 1) = [0, 1, 2] \<and>
   double_eq (lane_latency env_tie (params_super (ex_params 1)) 1) (Fin 30) \<and>
   double_eq (lane_latency env_tie (params_super (ex_params 1)) 2) (Fin 30) \<and>
   lane_maps_of (events_since ex_state
     (snd (ucp_proto_priority_init_priv env_tie (ex_params 1) ex_perf ex_state))) = [2] \<and>
   caps_nodes_of (events_since ex_state
     (snd (ucp_proto_priority_init_priv env_tie (ex_params 1) ex_perf ex_state))) = [Some 11]"
proof -
  have c: "candidates env_tie (ex_params 1) = [0, 1, 2]"
    by (simp add: env_tie_def candidates_ex_env)
  have ne: "[0, 1, 2 :: ucp_lane_index_t] \<noteq> []"
    by simp
  have ok: "\<forall>l\<in>set [0, 1, 2]. lane_status env_tie (params_super (ex_params 1)) l = UCS_OK"
    by (simp add: env_tie_def lane_status_ex_env)
  have least: "\<forall>j<length [0, 1, 2 :: ucp_lane_index_t].
      double_le (Fin 30) (lane_latency env_tie (params_super (ex_params 1)) ([0, 1, 2] ! j))"
    by (auto simp: env_tie_def lane_latency_ex_env less_Suc_eq numeral_3_eq_3 double_le_def
        double_eq_def)
  have a: "1 < length [0, 1, 2 :: ucp_lane_index_t]" and b: "2 < length [0, 1, 2 :: ucp_lane_index_t]"
    and ab: "(1 :: nat) \<noteq> 2"
    by simp_all
  have ta: "double_eq (lane_latency env_tie (params_super (ex_params 1)) ([0, 1, 2] ! 1)) (Fin 30)"
    and tb: "double_eq (lane_latency env_tie (params_super (ex_params 1)) ([0, 1, 2] ! 2)) (Fin 30)"
    by (simp_all add: env_tie_def lane_latency_ex_env double_eq_def)
  from init_priv_tie_keeps_earliest [OF c ne ok least a b ab ta tb]
  obtain k where k: "k < length [0, 1, 2 :: ucp_lane_index_t]"
    and eq: "double_eq (lane_latency env_tie (params_super (ex_params 1)) ([0, 1, 2] ! k)) (Fin 30)"
    and first: "\<forall>j<k. \<not> double_eq (lane_latency env_tie (params_super (ex_params 1))
                                      ([0, 1, 2] ! j)) (Fin 30)"
    and run: "\<forall>perf s.
       lane_maps_of (events_since s
         (snd (ucp_proto_priority_init_priv env_tie (ex_params 1) perf s)))
         = [UCS_BIT (unat ([0, 1, 2 :: ucp_lane_index_t] ! k))] \<and>
       caps_nodes_of (events_since s
         (snd (ucp_proto_priority_init_priv env_tie (ex_params 1) perf s)))
         = [Some (lane_node env_tie (params_super (ex_params 1)) ([0, 1, 2] ! k))]"
    by blast
  have "k = 1"
    using k eq first
    by (auto simp: env_tie_def lane_latency_ex_env less_Suc_eq numeral_3_eq_3 double_eq_def)
  then show ?thesis
    using c ta tb run [rule_format, of ex_state ex_perf]
    by (simp add: UCS_BIT_def env_tie_def lane_node_ex_env)
qed

text \<open>
  Claim C10. For a non-empty candidate list on which every Provider query succeeds,
  with every lane index below the 64 bits of the lane map,
  \<open>ucp_proto_priority_init_priv\<close> always selects exactly one candidate of the list: one
  lane map goes to the Registration Map Builder and it has exactly one bit set, that of
  the selected lane. When no latency is strictly below the starting minimum \<open>INFINITY\<close>
  (each is \<open>+\<infinity>\<close> or a NaN), the selected candidate is the one at index 0.
\<close>

theorem init_priv_always_selects_one:
  assumes c: "candidates env params = lanes" and ne: "lanes \<noteq> []"
    and ok: "\<forall>l\<in>set lanes. lane_status env (params_super params) l = UCS_OK"
    and bits: "\<forall>l\<in>set lanes. unat l < 64"
  shows "\<exists>k<length lanes.
           lane_maps_of (events_since s (snd (ucp_proto_priority_init_priv env params perf s)))
             = [UCS_BIT (unat (lanes ! k))] \<and>
           caps_nodes_of (events_since s (snd (ucp_proto_priority_init_priv env params perf s)))
             = [Some (lane_node env (params_super params) (lanes ! k))] \<and>
           (\<forall>n. bit (UCS_BIT (unat (lanes ! k))) n \<longleftrightarrow> n = unat (lanes ! k)) \<and>
           ((\<forall>j<length lanes.
               \<not> double_lt (lane_latency env (params_super params) (lanes ! j)) INFINITY)
            \<longrightarrow> k = 0)"
proof -
  define p where "p = params_super params"
  define L where "L = (\<lambda>j. lane_latency env p (lanes ! j))"
  define k where "k = selected_index env p lanes"
  have klt: "k < length lanes"
    unfolding k_def by (rule selected_index_less [OF ne])
  obtain m where inv: "argmin_inv L (length lanes) (m, k)"
    using selected_index_inv [of env p lanes] by (auto simp: L_def k_def)
  have zero: "k = 0" if "\<forall>j<length lanes. \<not> double_lt (L j) INFINITY"
    using inv that klt by (auto simp: argmin_inv_def INFINITY_def)
  have ev: "events_since s (snd (ucp_proto_priority_init_priv env params perf s)) =
              ok_events env p lanes k"
    unfolding p_def k_def by (rule init_priv_ok_events [OF c ne ok])
  have "unat (lanes ! k) < 64"
    using bits klt by simp
  then have one: "\<forall>n. bit (UCS_BIT (unat (lanes ! k))) n \<longleftrightarrow> n = unat (lanes ! k)"
    by (simp add: bit_UCS_BIT)
  show ?thesis
    using klt zero one
    by (intro exI [of _ k])
      (simp add: ev lane_maps_of_ok_events caps_nodes_of_ok_events L_def p_def)
qed

theorem init_priv_always_selects_one_witness:
  "candidates env_no_finite (ex_params 1) = [0, 1] \<and>
   lane_latency env_no_finite (params_super (ex_params 1)) 0 = PInf \<and>
   lane_latency env_no_finite (params_super (ex_params 1)) 1 = NaN \<and>
   lane_maps_of (events_since ex_state
     (snd (ucp_proto_priority_init_priv env_no_finite (ex_params 1) ex_perf ex_state))) = [1] \<and>
   caps_nodes_of (events_since ex_state
     (snd (ucp_proto_priority_init_priv env_no_finite (ex_params 1) ex_perf ex_state)))
     = [Some 10]"
proof -
  have c: "candidates env_no_finite (ex_params 1) = [0, 1]"
    by (simp add: env_no_finite_def candidates_ex_env)
  have ne: "[0, 1 :: ucp_lane_index_t] \<noteq> []"
    by simp
  have ok: "\<forall>l\<in>set [0, 1]. lane_status env_no_finite (params_super (ex_params 1)) l = UCS_OK"
    by (simp add: env_no_finite_def lane_status_ex_env)
  have bits: "\<forall>l\<in>set [0, 1 :: ucp_lane_index_t]. unat l < 64"
    by simp
  have l0: "lane_latency env_no_finite (params_super (ex_params 1)) 0 = PInf"
    and l1: "lane_latency env_no_finite (params_super (ex_params 1)) 1 = NaN"
    by (simp_all add: env_no_finite_def lane_latency_ex_env)
  have none: "\<forall>j<length [0, 1 :: ucp_lane_index_t].
      \<not> double_lt (lane_latency env_no_finite (params_super (ex_params 1)) ([0, 1] ! j)) INFINITY"
    by (auto simp: env_no_finite_def lane_latency_ex_env less_Suc_eq numeral_2_eq_2 INFINITY_def)
  from init_priv_always_selects_one [OF c ne ok bits, of ex_state ex_perf] none
  obtain k where "k = 0"
    and lm: "lane_maps_of (events_since ex_state
        (snd (ucp_proto_priority_init_priv env_no_finite (ex_params 1) ex_perf ex_state)))
        = [UCS_BIT (unat ([0, 1 :: ucp_lane_index_t] ! k))]"
    and cn: "caps_nodes_of (events_since ex_state
        (snd (ucp_proto_priority_init_priv env_no_finite (ex_params 1) ex_perf ex_state)))
        = [Some (lane_node env_no_finite (params_super (ex_params 1)) ([0, 1] ! k))]"
    by blast
  then show ?thesis
    using c l0 l1 by (simp add: UCS_BIT_def env_no_finite_def lane_node_ex_env)
qed

section \<open>References and the private blob\<close>

text \<open>
  Claim C2, evaluated on the code where it fails: three candidates, the Provider
  succeeds on the first (node 10) and fails on the second with error \<open>-3\<close>. The function
  returns that error from inside the scan loop; by then one reference has been taken
  and none given back. The loop that gives references back is at the end of the
  function, which this path does not reach (in general, a failure at index \<open>k\<close> leaves
  \<open>k\<close> references taken and none given back, \<open>init_priv_provider_failure_unbalanced\<close>).
\<close>

theorem init_priv_provider_failure_leaks:
  "fst (ucp_proto_priority_init_priv env_provider_fails (ex_params 1) ex_perf ex_state)
     = UCS_ERR_OTHER (- 3) \<and>
   trace (snd (ucp_proto_priority_init_priv env_provider_fails (ex_params 1) ex_perf ex_state))
     = [FindLanes, GetLanePerf 0, Acquire 10, GetLanePerf 1] \<and>
   acquisitions
     (trace (snd (ucp_proto_priority_init_priv env_provider_fails (ex_params 1) ex_perf ex_state)))
     = 1 \<and>
   releases
     (trace (snd (ucp_proto_priority_init_priv env_provider_fails (ex_params 1) ex_perf ex_state)))
     = 0"
  by code_simp

text \<open>
  Claim C3, evaluated on the code where it fails: one candidate, lane 0, every
  collaborator succeeds, and the blob starts zeroed. The function returns \<open>UCS_OK\<close> and
  has computed the lane map \<open>1\<close>, but the blob is as it was: lane map 0, lane count 0,
  registration map 0. The function never stores through \<open>priv\<close>.
\<close>

theorem init_priv_leaves_priv_unwritten:
  "fst (ucp_proto_priority_init_priv env_one_lane (ex_params 1) ex_perf ex_state) = UCS_OK \<and>
   lane_maps_of
     (trace (snd (ucp_proto_priority_init_priv env_one_lane (ex_params 1) ex_perf ex_state)))
     = [1] \<and>
   lane_map (priv (snd (ucp_proto_priority_init_priv env_one_lane (ex_params 1) ex_perf ex_state)))
     = 0 \<and>
   num_lanes (priv (snd (ucp_proto_priority_init_priv env_one_lane (ex_params 1) ex_perf ex_state)))
     = 0 \<and>
   reg_md_map (priv (snd (ucp_proto_priority_init_priv env_one_lane (ex_params 1) ex_perf ex_state)))
     = 0"
  by code_simp

text \<open>
  Claim C5. When the Lane Catalog returns no candidate,
  \<open>ucp_proto_priority_init_priv\<close> returns \<open>UCS_ERR_NO_ELEM\<close>; the catalog lookup is the
  only call it made: no Provider query, no reference taken or given back; and the blob
  and the size field are as they were.
\<close>

theorem init_priv_no_candidates:
  assumes "candidates env params = []"
  shows "fst (ucp_proto_priority_init_priv env params perf s) = UCS_ERR_NO_ELEM \<and>
         events_since s (snd (ucp_proto_priority_init_priv env params perf s)) = [FindLanes] \<and>
         filter is_GetLanePerf
           (events_since s (snd (ucp_proto_priority_init_priv env params perf s))) = [] \<and>
         acquisitions
           (events_since s (snd (ucp_proto_priority_init_priv env params perf s))) = 0 \<and>
         releases
           (events_since s (snd (ucp_proto_priority_init_priv env params perf s))) = 0 \<and>
         priv (snd (ucp_proto_priority_init_priv env params perf s)) = priv s \<and>
         priv_size (snd (ucp_proto_priority_init_priv env params perf s)) = priv_size s"
  by (simp add: init_priv_empty_run [OF assms] acquisitions_def releases_def)

theorem init_priv_no_candidates_witness:
  "candidates (ex_env [] [] UCS_OK True) (ex_params 1) = [] \<and>
   fst (ucp_proto_priority_init_priv (ex_env [] [] UCS_OK True) (ex_params 1) ex_perf ex_state)
     = UCS_ERR_NO_ELEM \<and>
   trace (snd (ucp_proto_priority_init_priv (ex_env [] [] UCS_OK True) (ex_params 1) ex_perf
     ex_state)) = [FindLanes] \<and>
   priv_size (snd (ucp_proto_priority_init_priv (ex_env [] [] UCS_OK True) (ex_params 1) ex_perf
     ex_state)) = None"
proof -
  have c: "candidates (ex_env [] [] UCS_OK True) (ex_params 1) = []"
    by (simp add: candidates_def ex_env_def)
  show ?thesis
    using c init_priv_no_candidates [OF c, of ex_perf ex_state]
    by (simp add: events_since_def ex_state_def)
qed

section \<open>The result of \<open>ucp_proto_priority_init\<close>\<close>

text \<open>
  Claim C6, as amended. When the count of priority lanes requested is zero and the
  error-handling check passes, \<open>ucp_proto_priority_init\<close> returns \<open>UCS_OK\<close> at once: the
  error-handling check is the only call it made, and the blob and the size field are as
  they were.
\<close>

theorem init_bypass_without_priority_lanes:
  assumes "num_priority_lanes params = 0"
    and "check_err_handling env (params_super params)"
  shows "fst (ucp_proto_priority_init env params perf s) = UCS_OK \<and>
         events_since s (snd (ucp_proto_priority_init env params perf s)) = [CheckErrHandling] \<and>
         priv (snd (ucp_proto_priority_init env params perf s)) = priv s \<and>
         priv_size (snd (ucp_proto_priority_init env params perf s)) = priv_size s"
  using assms
  by (simp add: ucp_proto_priority_init_def ucp_proto_common_init_check_err_handling_def)

theorem init_bypass_without_priority_lanes_witness:
  "num_priority_lanes (ex_params 0) = 0 \<and>
   check_err_handling (ex_env [0] [(UCS_OK, Fin 45)] UCS_OK True) (params_super (ex_params 0)) \<and>
   fst (ucp_proto_priority_init (ex_env [0] [(UCS_OK, Fin 45)] UCS_OK True) (ex_params 0)
          ex_perf ex_state) = UCS_OK \<and>
   trace (snd (ucp_proto_priority_init (ex_env [0] [(UCS_OK, Fin 45)] UCS_OK True) (ex_params 0)
          ex_perf ex_state)) = [CheckErrHandling] \<and>
   priv_size (snd (ucp_proto_priority_init (ex_env [0] [(UCS_OK, Fin 45)] UCS_OK True)
          (ex_params 0) ex_perf ex_state)) = None"
proof -
  have n: "num_priority_lanes (ex_params 0) = 0"
    by (simp add: ex_params_def)
  have e: "check_err_handling (ex_env [0] [(UCS_OK, Fin 45)] UCS_OK True)
             (params_super (ex_params 0))"
    by (simp add: ex_env_def)
  show ?thesis
    using n e init_bypass_without_priority_lanes [OF n e, of ex_perf ex_state]
    by (simp add: events_since_def ex_state_def)
qed

text \<open>
  The claim as first stated, for every input with a zero count, fails where the
  error-handling check fails: that check comes first and the result is
  \<open>UCS_ERR_UNSUPPORTED\<close>.
\<close>

theorem init_bypass_counterexample:
  "num_priority_lanes (ex_params 0) = 0 \<and>
   fst (ucp_proto_priority_init (ex_env [0] [(UCS_OK, Fin 45)] UCS_OK False) (ex_params 0)
          ex_perf ex_state) = UCS_ERR_UNSUPPORTED"
  by (simp add: ucp_proto_priority_init_def ucp_proto_common_init_check_err_handling_def
      ex_env_def ex_params_def)

text \<open>
  Claim C7. When the error-handling predicate reports the requirements as not
  satisfiable, \<open>ucp_proto_priority_init\<close> returns \<open>UCS_ERR_UNSUPPORTED\<close>, and the call of
  the predicate is the only call it made: no catalog lookup, no Provider query, no
  reference taken.
\<close>

theorem init_unsupported_err_handling:
  assumes "\<not> check_err_handling env (params_super params)"
  shows "fst (ucp_proto_priority_init env params perf s) = UCS_ERR_UNSUPPORTED \<and>
         events_since s (snd (ucp_proto_priority_init env params perf s)) = [CheckErrHandling] \<and>
         filter is_FindLanes (events_since s (snd (ucp_proto_priority_init env params perf s))) = [] \<and>
         filter is_GetLanePerf (events_since s (snd (ucp_proto_priority_init env params perf s))) = [] \<and>
         acquisitions (events_since s (snd (ucp_proto_priority_init env params perf s))) = 0"
  using assms
  by (simp add: ucp_proto_priority_init_def ucp_proto_common_init_check_err_handling_def
      acquisitions_def)

theorem init_unsupported_err_handling_witness:
  "\<not> check_err_handling (ex_env [0] [(UCS_OK, Fin 45)] UCS_OK False)
       (params_super (ex_params 1)) \<and>
   fst (ucp_proto_priority_init (ex_env [0] [(UCS_OK, Fin 45)] UCS_OK False) (ex_params 1)
          ex_perf ex_state) = UCS_ERR_UNSUPPORTED \<and>
   trace (snd (ucp_proto_priority_init (ex_env [0] [(UCS_OK, Fin 45)] UCS_OK False)
          (ex_params 1) ex_perf ex_state)) = [CheckErrHandling]"
proof -
  have h: "\<not> check_err_handling (ex_env [0] [(UCS_OK, Fin 45)] UCS_OK False)
              (params_super (ex_params 1))"
    by (simp add: ex_env_def)
  show ?thesis
    using h init_unsupported_err_handling [OF h, of ex_perf ex_state]
    by (simp add: events_since_def ex_state_def)
qed

text \<open>
  Claim C9, as amended. Let priority lanes be requested and the error-handling check
  pass. When the catalog is not empty and every Provider query succeeds, the Aggregator
  is called once and \<open>ucp_proto_priority_init\<close> returns the result code of that call.
  In every case, \<open>ucp_proto_priority_init\<close> stores \<open>sizeof(ucp_proto_priority_priv_t)\<close>
  in the size field when its result is \<open>UCS_OK\<close>, and leaves the size field as it was
  when its result is anything else.
\<close>

theorem init_result_and_priv_size:
  assumes eh: "check_err_handling env (params_super params)"
    and n: "num_priority_lanes params \<noteq> 0"
  shows "(candidates env params \<noteq> [] \<and>
          (\<forall>l\<in>set (candidates env params). lane_status env (params_super params) l = UCS_OK)
          \<longrightarrow> (\<exists>p md. filter is_InitCaps
                         (events_since s (snd (ucp_proto_priority_init env params perf s)))
                         = [InitCaps p md] \<and>
                       fst (ucp_proto_priority_init env params perf s)
                         = init_caps env (params_super params) perf p md)) \<and>
         (fst (ucp_proto_priority_init env params perf s) = UCS_OK
          \<longrightarrow> priv_size (snd (ucp_proto_priority_init env params perf s))
                = Some (sizeof_priv env)) \<and>
         (fst (ucp_proto_priority_init env params perf s) \<noteq> UCS_OK
          \<longrightarrow> priv_size (snd (ucp_proto_priority_init env params perf s)) = priv_size s)"
proof -
  define s1 where "s1 = emit [CheckErrHandling] s"
  define r where "r = ucp_proto_priority_init_priv env params perf s1"
  have init: "ucp_proto_priority_init env params perf s =
      (if fst r \<noteq> UCS_OK then (fst r, snd r)
       else (UCS_OK, (snd r)\<lparr>priv_size := Some (sizeof_priv env)\<rparr>))"
    using eh n
    by (simp add: ucp_proto_priority_init_def ucp_proto_common_init_check_err_handling_def
        r_def s1_def split: prod.splits)
  have frame: "priv_size (snd r) = priv_size s"
    using init_priv_frame [of env params perf s1] by (simp add: r_def s1_def)
  have caps: "\<exists>p md. filter is_InitCaps
                         (events_since s (snd (ucp_proto_priority_init env params perf s)))
                         = [InitCaps p md] \<and>
                       fst (ucp_proto_priority_init env params perf s)
                         = init_caps env (params_super params) perf p md"
    if ne: "candidates env params \<noteq> []"
      and ok: "\<forall>l\<in>set (candidates env params). lane_status env (params_super params) l = UCS_OK"
  proof -
    define lanes where "lanes = candidates env params"
    define k where "k = selected_index env (params_super params) lanes"
    have run: "r = (init_caps env (params_super params) perf
                      (Some (lane_node env (params_super params) (lanes ! k)))
                      (common_reg_md_map env (params_super params) (UCS_BIT (unat (lanes ! k)))),
                    emit (ok_events env (params_super params) lanes k) s1)"
      unfolding r_def k_def lanes_def
      by (rule init_priv_ok_run [OF refl ne ok])
    have tr: "events_since s (snd (ucp_proto_priority_init env params perf s)) =
              CheckErrHandling # ok_events env (params_super params) lanes k"
      by (simp add: init run s1_def events_since_def)
    show ?thesis
      by (intro exI [of _ "Some (lane_node env (params_super params) (lanes ! k))"]
          exI [of _ "common_reg_md_map env (params_super params) (UCS_BIT (unat (lanes ! k)))"])
        (simp add: tr filter_InitCaps_ok_events, simp add: init run)
  qed
  show ?thesis
    using caps frame by (simp add: init)
qed

theorem init_result_and_priv_size_witness:
  "check_err_handling env_one_lane (params_super (ex_params 1)) \<and>
   check_err_handling env_caps_fail (params_super (ex_params 1)) \<and>
   num_priority_lanes (ex_params 1) \<noteq> 0 \<and>
   fst (ucp_proto_priority_init env_one_lane (ex_params 1) ex_perf ex_state) = UCS_OK \<and>
   priv_size (snd (ucp_proto_priority_init env_one_lane (ex_params 1) ex_perf ex_state))
     = Some 24 \<and>
   fst (ucp_proto_priority_init env_caps_fail (ex_params 1) ex_perf ex_state)
     = UCS_ERR_OTHER (- 4) \<and>
   priv_size (snd (ucp_proto_priority_init env_caps_fail (ex_params 1) ex_perf ex_state)) = None"
proof -
  have n: "num_priority_lanes (ex_params 1) \<noteq> 0"
    by (simp add: ex_params_def)
  have eh: "check_err_handling env_one_lane (params_super (ex_params 1))"
    by (simp add: env_one_lane_def ex_env_def)
  have c: "candidates env_one_lane (ex_params 1) \<noteq> [] \<and>
     (\<forall>l\<in>set (candidates env_one_lane (ex_params 1)).
        lane_status env_one_lane (params_super (ex_params 1)) l = UCS_OK)"
    by (simp add: env_one_lane_def candidates_ex_env lane_status_ex_env)
  have a: "init_caps env_one_lane (params_super (ex_params 1)) ex_perf p md = UCS_OK"
    for p md
    by (simp add: env_one_lane_def ex_env_def)
  have sz: "sizeof_priv env_one_lane = 24"
    by (simp add: env_one_lane_def ex_env_def)
  have good: "fst (ucp_proto_priority_init env_one_lane (ex_params 1) ex_perf ex_state) = UCS_OK \<and>
     priv_size (snd (ucp_proto_priority_init env_one_lane (ex_params 1) ex_perf ex_state))
       = Some 24"
    using c a sz init_result_and_priv_size [OF eh n, of ex_state ex_perf]
    by auto
  have eh': "check_err_handling env_caps_fail (params_super (ex_params 1))"
    by (simp add: env_caps_fail_def ex_env_def)
  have c': "candidates env_caps_fail (ex_params 1) \<noteq> [] \<and>
     (\<forall>l\<in>set (candidates env_caps_fail (ex_params 1)).
        lane_status env_caps_fail (params_super (ex_params 1)) l = UCS_OK)"
    by (simp add: env_caps_fail_def candidates_ex_env lane_status_ex_env)
  have a': "init_caps env_caps_fail (params_super (ex_params 1)) ex_perf p md
              = UCS_ERR_OTHER (- 4)" for p md
    by (simp add: env_caps_fail_def ex_env_def)
  have bad: "fst (ucp_proto_priority_init env_caps_fail (ex_params 1) ex_perf ex_state)
       = UCS_ERR_OTHER (- 4) \<and>
     priv_size (snd (ucp_proto_priority_init env_caps_fail (ex_params 1) ex_perf ex_state))
       = None"
    using c' a' init_result_and_priv_size [OF eh' n, of ex_state ex_perf]
    by (auto simp: ex_state_def)
  show ?thesis
    using n eh eh' good bad by simp
qed

text \<open>
  The claim as first stated takes the result to be the Aggregator's whenever priority
  lanes are requested and the error-handling check passes. With an empty catalog the
  Aggregator, which would answer \<open>UCS_OK\<close>, is never called, and the result is
  \<open>UCS_ERR_NO_ELEM\<close>.
\<close>

theorem init_result_counterexample:
  "check_err_handling env_empty (params_super (ex_params 1)) \<and>
   num_priority_lanes (ex_params 1) \<noteq> 0 \<and>
   init_caps env_empty (params_super (ex_params 1)) ex_perf None 0 = UCS_OK \<and>
   fst (ucp_proto_priority_init env_empty (ex_params 1) ex_perf ex_state) = UCS_ERR_NO_ELEM \<and>
   filter is_InitCaps
     (trace (snd (ucp_proto_priority_init env_empty (ex_params 1) ex_perf ex_state))) = []"
  by (simp add: ucp_proto_priority_init_def ucp_proto_common_init_check_err_handling_def
      ucp_proto_priority_init_priv_def ucp_proto_common_find_lanes_def
      env_empty_def ex_env_def ex_params_def ex_state_def emit_def)

end
